theory Spec2Isabelle
  imports Main "HOL-Library.Word" "HOL-Library.AList"
begin

unbundle bit_operations_syntax

section \<open>Edge state: \<^verbatim>\<open>struct GpioState\<close> (gpio_state.h)\<close>

text \<open>
  \<^verbatim>\<open>enum Value : int8_t { Undefined = -1, Low = 0, High = 1 }\<close>.  The struct holds one
  private member \<^verbatim>\<open>value_\<close> of that enum and converts implicitly to it
  (\<^verbatim>\<open>operator Value()\<close>), so a \<^verbatim>\<open>GpioState\<close> is modelled by its enumerator.
\<close>

datatype Value = Undefined | Low | High

type_synonym GpioState = Value

text \<open>The underlying \<^verbatim>\<open>int8_t\<close> of an enumerator.\<close>

fun underlying :: "Value \<Rightarrow> int" where
  "underlying Undefined = - 1"
| "underlying Low = 0"
| "underlying High = 1"

text \<open>
  \<^verbatim>\<open>static_cast<Value>(b)\<close> for a \<^verbatim>\<open>bool b\<close>: \<^verbatim>\<open>true\<close> is 1 (High),
  \<^verbatim>\<open>false\<close> is 0 (Low).
\<close>

definition Value_of_bool :: "bool \<Rightarrow> Value" where
  "Value_of_bool b = (if b then High else Low)"

text \<open>The default constructor: \<^verbatim>\<open>GpioState() : value_(Value::Undefined)\<close>.\<close>

definition GpioState_default :: GpioState where
  "GpioState_default = Undefined"

text \<open>
  The converting constructor
  \<^verbatim>\<open>template <typename T> GpioState(const T state, const bool inverse_logic = false)\<close>
  with
  \<^verbatim>\<open>value_(inverse_logic ? static_cast<Value>(!static_cast<bool>(state))
                        : static_cast<Value>(static_cast<bool>(state)))\<close>.
  The argument is an integer (\<^verbatim>\<open>gpio_get_level\<close> returns \<^verbatim>\<open>int\<close>; an enumerator
  enters by its underlying value); \<^verbatim>\<open>static_cast<bool>\<close> of it is the test against 0.
\<close>

definition GpioState_ctor :: "int \<Rightarrow> bool \<Rightarrow> GpioState" where
  "GpioState_ctor state inverse_logic =
     (if inverse_logic then Value_of_bool (\<not> (state \<noteq> 0))
      else Value_of_bool (state \<noteq> 0))"

text \<open>
  \<^verbatim>\<open>operator!\<close> switches on \<^verbatim>\<open>value_\<close> and returns an enumerator
  (\<^verbatim>\<open>return Value::High;\<close>, \<^verbatim>\<open>return Value::Low;\<close>, \<^verbatim>\<open>default: return Value::Undefined;\<close>)
  from a function whose return type is \<^verbatim>\<open>GpioState\<close>.  The struct has no constructor
  taking a \<^verbatim>\<open>Value\<close>: the returned enumerator is converted by the template constructor
  above with \<^verbatim>\<open>T = Value\<close> and \<^verbatim>\<open>inverse_logic = false\<close>, that is through
  \<^verbatim>\<open>static_cast<bool>\<close>.  The model keeps that conversion at each return.
\<close>

definition operator_not :: "GpioState \<Rightarrow> GpioState" where
  "operator_not s =
     (case s of
        Low \<Rightarrow> GpioState_ctor (underlying High) False
      | High \<Rightarrow> GpioState_ctor (underlying Low) False
      | Undefined \<Rightarrow> GpioState_ctor (underlying Undefined) False)"

section \<open>Platform primitives used by the interrupt source\<close>

type_synonym UBaseType_t = "32 word"
type_synonym TickType_t = "32 word"

text \<open>
  \<^verbatim>\<open>UBASETYPE_MAX{std::numeric_limits<UBaseType_t>::max()}\<close> (core.cpp), with the
  32-bit \<^verbatim>\<open>UBaseType_t\<close> of the target: \<^verbatim>\<open>0xFFFFFFFF\<close>.
\<close>

definition UBASETYPE_MAX :: UBaseType_t where
  "UBASETYPE_MAX = 4294967295"

text \<open>\<^verbatim>\<open>portMAX_DELAY\<close>, the largest tick count (\<^verbatim>\<open>0xFFFFFFFF\<close>).\<close>

definition portMAX_DELAY :: TickType_t where
  "portMAX_DELAY = 4294967295"

text \<open>
  A FreeRTOS counting semaphore: its current count and the maximum count it was created
  with.  \<^verbatim>\<open>xSemaphoreGive\<close> adds one unless the count is at the maximum, where the give
  fails and the count stays (the callers here ignore its return value);
  \<^verbatim>\<open>xSemaphoreTake\<close> removes one when the count is positive and otherwise times out.
\<close>

record Semaphore =
  uxMessagesWaiting :: UBaseType_t
  uxMaxCount :: UBaseType_t

definition xSemaphoreCreateCounting :: "UBaseType_t \<Rightarrow> UBaseType_t \<Rightarrow> Semaphore" where
  "xSemaphoreCreateCounting uxMax uxInitial =
     \<lparr>uxMessagesWaiting = uxInitial, uxMaxCount = uxMax\<rparr>"

definition xSemaphoreGive :: "Semaphore \<Rightarrow> Semaphore" where
  "xSemaphoreGive sem =
     (if uxMessagesWaiting sem < uxMaxCount sem
      then sem\<lparr>uxMessagesWaiting := uxMessagesWaiting sem + 1\<rparr>
      else sem)"

definition xSemaphoreTake :: "Semaphore \<Rightarrow> bool \<times> Semaphore" where
  "xSemaphoreTake sem =
     (if 0 < uxMessagesWaiting sem
      then (True, sem\<lparr>uxMessagesWaiting := uxMessagesWaiting sem - 1\<rparr>)
      else (False, sem))"

definition uxSemaphoreGetCount :: "Semaphore \<Rightarrow> UBaseType_t" where
  "uxSemaphoreGetCount sem = uxMessagesWaiting sem"

text \<open>
  A FreeRTOS software timer created with \<^verbatim>\<open>pdFALSE\<close> auto-reload (single shot): it is
  either dormant or active with a period.  \<^verbatim>\<open>xTimerChangePeriod\<close> sets the period and
  starts (or restarts) the timer; \<^verbatim>\<open>xTimerStop\<close> makes it dormant.
\<close>

record Timer =
  active :: bool
  period :: TickType_t

definition xTimerCreate :: "TickType_t \<Rightarrow> Timer" where
  "xTimerCreate xTimerPeriod = \<lparr>active = False, period = xTimerPeriod\<rparr>"

definition xTimerChangePeriod :: "Timer \<Rightarrow> TickType_t \<Rightarrow> Timer" where
  "xTimerChangePeriod t xNewPeriod = \<lparr>active = True, period = xNewPeriod\<rparr>"

definition xTimerStop :: "Timer \<Rightarrow> Timer" where
  "xTimerStop t = t\<lparr>active := False\<rparr>"

section \<open>The interrupt source: \<^verbatim>\<open>class Interrupt\<close>\<close>

text \<open>
  The private members of the class (interrupt.h), named as there without the trailing
  underscore.  \<^verbatim>\<open>pGPIOConfig_\<close> is a constant passed once to the GPIO driver and is
  left out.
\<close>

record Interrupt =
  gpio_num :: int
  inverse_logic :: bool
  interrupt_counting_semaphore :: Semaphore
  low_to_high_time_ticks :: TickType_t
  high_to_low_time_ticks :: TickType_t
  change_state_timer :: Timer
  raw_state :: GpioState
  fsm_state :: GpioState
  protect_timer_semaphore :: Semaphore

text \<open>
  The part of the constructor that builds the object: both semaphores start at 0
  (the counting one with maximum \<^verbatim>\<open>UBASETYPE_MAX\<close>), the timer is created dormant
  with period \<^verbatim>\<open>portMAX_DELAY\<close>, and \<^verbatim>\<open>raw_state_\<close> is default-constructed.
  The header initialises the other state member by
  \<^verbatim>\<open>GpioState fsm_state_{GpioState::Undefined};\<close>, that is from the enumerator.  As
  at the returns of \<^verbatim>\<open>operator!\<close>, the only constructor of \<^verbatim>\<open>GpioState\<close> that
  accepts an enumerator is the converting one, and the model keeps that call.
  \<^verbatim>\<open>configTIMER_QUEUE_LENGTH\<close> is a platform configuration constant, taken as a
  parameter.
\<close>

definition Interrupt_ctor ::
  "UBaseType_t \<Rightarrow> int \<Rightarrow> TickType_t \<Rightarrow> TickType_t \<Rightarrow> bool \<Rightarrow> Interrupt" where
  "Interrupt_ctor configTIMER_QUEUE_LENGTH p_gpio_num p_low_to_high_time_ticks
       p_high_to_low_time_ticks p_inverse_logic =
     \<lparr>gpio_num = p_gpio_num,
      inverse_logic = p_inverse_logic,
      interrupt_counting_semaphore = xSemaphoreCreateCounting UBASETYPE_MAX 0,
      low_to_high_time_ticks = p_low_to_high_time_ticks,
      high_to_low_time_ticks = p_high_to_low_time_ticks,
      change_state_timer = xTimerCreate portMAX_DELAY,
      raw_state = GpioState_default,
      fsm_state = GpioState_ctor (underlying Undefined) False,
      protect_timer_semaphore = xSemaphoreCreateCounting configTIMER_QUEUE_LENGTH 0\<rparr>"

text \<open>\<^verbatim>\<open>PendingInterrupts\<close>, \<^verbatim>\<open>RedundantInterrupts\<close>, \<^verbatim>\<open>LastState\<close> (interrupt.h).\<close>

definition PendingInterrupts :: "Interrupt \<Rightarrow> UBaseType_t" where
  "PendingInterrupts this = uxSemaphoreGetCount (interrupt_counting_semaphore this)"

definition RedundantInterrupts :: "Interrupt \<Rightarrow> UBaseType_t" where
  "RedundantInterrupts this =
     (let pending_interrupts = PendingInterrupts this
      in pending_interrupts - (pending_interrupts mod 2))"

definition LastState :: "Interrupt \<Rightarrow> GpioState" where
  "LastState this = fsm_state this"

text \<open>\<^verbatim>\<open>GoHighTime\<close> and \<^verbatim>\<open>GoLowTime\<close> read the two delays.\<close>

definition GoHighTime :: "Interrupt \<Rightarrow> TickType_t" where
  "GoHighTime this = low_to_high_time_ticks this"

definition GoLowTime :: "Interrupt \<Rightarrow> TickType_t" where
  "GoLowTime this = high_to_low_time_ticks this"

text \<open>
  \<^verbatim>\<open>StateChanger\<close>: \<^verbatim>\<open>FsmState() = !FsmState(); xSemaphoreGive(interrupt_counting_semaphore_);\<close>
\<close>

definition StateChanger :: "Interrupt \<Rightarrow> Interrupt" where
  "StateChanger this =
     this\<lparr>fsm_state := operator_not (fsm_state this),
          interrupt_counting_semaphore :=
            xSemaphoreGive (interrupt_counting_semaphore this)\<rparr>"

text \<open>\<^verbatim>\<open>TimerCallback\<close> recovers the object from the timer id and calls \<^verbatim>\<open>StateChanger\<close>.\<close>

definition TimerCallback :: "Interrupt \<Rightarrow> Interrupt" where
  "TimerCallback interrupt_obj = StateChanger interrupt_obj"

text \<open>
  \<^verbatim>\<open>FsmTransition\<close>: the wait time is \<^verbatim>\<open>GoHighTime()\<close> when the new state is High and
  \<^verbatim>\<open>GoLowTime()\<close> otherwise; a non-zero wait time changes the timer's period (which
  starts it), a zero wait time calls \<^verbatim>\<open>StateChanger\<close> directly.
\<close>

definition FsmTransition :: "GpioState \<Rightarrow> Interrupt \<Rightarrow> Interrupt" where
  "FsmTransition new_state this =
     (let wait_time = (if new_state = High then GoHighTime this else GoLowTime this)
      in if wait_time \<noteq> 0
         then this\<lparr>change_state_timer :=
                     xTimerChangePeriod (change_state_timer this) wait_time\<rparr>
         else StateChanger this)"

text \<open>\<^verbatim>\<open>FsmReset\<close>: \<^verbatim>\<open>xTimerStop(change_state_timer_, portMAX_DELAY)\<close>.\<close>

definition FsmReset :: "GpioState \<Rightarrow> Interrupt \<Rightarrow> Interrupt" where
  "FsmReset new_state this =
     this\<lparr>change_state_timer := xTimerStop (change_state_timer this)\<rparr>"

text \<open>\<^verbatim>\<open>ProcessInterrupt\<close>, with its early return on the first reading.\<close>

definition ProcessInterrupt :: "GpioState \<Rightarrow> Interrupt \<Rightarrow> Interrupt" where
  "ProcessInterrupt new_state this =
     (if fsm_state this = Undefined
      then this\<lparr>fsm_state := operator_not new_state,
                interrupt_counting_semaphore :=
                  xSemaphoreGive (interrupt_counting_semaphore this)\<rparr>
      else if fsm_state this \<noteq> new_state
      then FsmTransition new_state this
      else FsmReset new_state this)"

section \<open>The consumer and the timer service\<close>

text \<open>
  Modelled from the spec: \<^verbatim>\<open>WaitForSingleInterrupt\<close> is declared in interrupt.h and its
  body is not among the sources.  The spec's \<^verbatim>\<open>wait_one\<close>: blocks until the pending
  count is positive or the timeout passes; on success it decrements the pending count
  by one, on timeout it returns false.  The header: ``When an interrupt is processed,
  the interrupt counting semaphore decreases by one''.
\<close>

definition WaitForSingleInterrupt :: "Interrupt \<Rightarrow> bool \<times> Interrupt" where
  "WaitForSingleInterrupt this =
     (case xSemaphoreTake (interrupt_counting_semaphore this) of
        (took, sem) \<Rightarrow> (took, this\<lparr>interrupt_counting_semaphore := sem\<rparr>))"

text \<open>
  The timer service: when the single-shot timer is active and its period has passed, the
  timer becomes dormant and \<^verbatim>\<open>TimerCallback\<close> runs; a dormant timer never fires.
\<close>

definition timer_expiry :: "Interrupt \<Rightarrow> Interrupt" where
  "timer_expiry this =
     (if active (change_state_timer this)
      then TimerCallback
             (this\<lparr>change_state_timer := (change_state_timer this)\<lparr>active := False\<rparr>\<rparr>)
      else this)"

section \<open>The debounce entry point\<close>

text \<open>
  \<^verbatim>\<open>Debouncer\<close> keeps the last processed state in a function-local
  \<^verbatim>\<open>static GpioState previous_state;\<close>.  A static local of a member function is one
  variable of the program, default-constructed once (Undefined): it is threaded through
  the calls beside the object the call is made on.
\<close>

definition Debouncer :: "GpioState \<Rightarrow> GpioState \<times> Interrupt \<Rightarrow> GpioState \<times> Interrupt" where
  "Debouncer new_state st =
     (case st of (previous_state, this) \<Rightarrow>
        if previous_state \<noteq> new_state
        then (new_state, ProcessInterrupt new_state this)
        else (previous_state, this))"

section \<open>One source and its three contexts\<close>

text \<open>
  What can happen to the only source of a program: the dispatcher hands a raw state to
  \<^verbatim>\<open>Debouncer\<close>, the timer service fires the timer, a consumer waits on the counting
  semaphore.  The state is the static \<^verbatim>\<open>previous_state\<close> and the object.
\<close>

datatype event = Dispatch GpioState | TimerExpiry | Consume

fun step :: "event \<Rightarrow> GpioState \<times> Interrupt \<Rightarrow> GpioState \<times> Interrupt" where
  "step (Dispatch new_state) st = Debouncer new_state st"
| "step TimerExpiry st = (fst st, timer_expiry (snd st))"
| "step Consume st = (fst st, snd (WaitForSingleInterrupt (snd st)))"

primrec run :: "event list \<Rightarrow> GpioState \<times> Interrupt \<Rightarrow> GpioState \<times> Interrupt" where
  "run [] st = st"
| "run (e # es) st = run es (step e st)"

text \<open>
  The steps that publish a settled event: a dispatch that \<^verbatim>\<open>Debouncer\<close> lets through
  and that meets the first-reading rule (\<^verbatim>\<open>fsm_state\<close> Undefined) or a transition
  with zero delay, and the expiry of the armed timer.
\<close>

fun publishes :: "event \<Rightarrow> GpioState \<times> Interrupt \<Rightarrow> bool" where
  "publishes (Dispatch new_state) st =
     (fst st \<noteq> new_state
      \<and> (fsm_state (snd st) = Undefined
          \<or> (fsm_state (snd st) \<noteq> new_state
              \<and> (if new_state = High then low_to_high_time_ticks (snd st)
                  else high_to_low_time_ticks (snd st)) = 0)))"
| "publishes TimerExpiry st = active (change_state_timer (snd st))"
| "publishes Consume st = False"

text \<open>The values of \<^verbatim>\<open>LastState()\<close> read after each published event of a run, in order.\<close>

primrec settled_states :: "event list \<Rightarrow> GpioState \<times> Interrupt \<Rightarrow> GpioState list" where
  "settled_states [] st = []"
| "settled_states (e # es) st =
     (if publishes e st then [LastState (snd (step e st))] else [])
     @ settled_states es (step e st)"

text \<open>The number of events a consumer took during a run (waits that did not time out).\<close>

primrec consumed :: "event list \<Rightarrow> GpioState \<times> Interrupt \<Rightarrow> nat" where
  "consumed [] st = 0"
| "consumed (e # es) st =
     (if e = Consume \<and> fst (WaitForSingleInterrupt (snd st)) then 1 else 0)
     + consumed es (step e st)"

text \<open>
  The counting semaphore is below its maximum count at every publication of the run, so
  that no give is refused.
\<close>

primrec never_full :: "event list \<Rightarrow> GpioState \<times> Interrupt \<Rightarrow> bool" where
  "never_full [] st = True"
| "never_full (e # es) st =
     ((publishes e st \<longrightarrow>
         PendingInterrupts (snd st) < uxMaxCount (interrupt_counting_semaphore (snd st)))
      \<and> never_full es (step e st))"

text \<open>The raw state of the first dispatch of a run.\<close>

fun first_reading :: "event list \<Rightarrow> GpioState option" where
  "first_reading [] = None"
| "first_reading (Dispatch new_state # es) = Some new_state"
| "first_reading (e # es) = first_reading es"

text \<open>Each element is the negation of the one before it, the first the negation of \<open>v\<close>.\<close>

primrec alternates :: "GpioState \<Rightarrow> GpioState list \<Rightarrow> bool" where
  "alternates v [] = True"
| "alternates v (x # xs) = (x = operator_not v \<and> alternates x xs)"

text \<open>
  Sources as the constructor leaves them (\<^verbatim>\<open>configTIMER_QUEUE_LENGTH\<close> 10, both
  delays 20 ticks): A on line 4 and B on line 5, and the source of the spec's scenario,
  on line 3 with inverted logic.
\<close>

definition source_A :: Interrupt where
  "source_A = Interrupt_ctor 10 4 20 20 False"

definition source_B :: Interrupt where
  "source_B = Interrupt_ctor 10 5 20 20 False"

definition scenario_source :: Interrupt where
  "scenario_source = Interrupt_ctor 10 3 20 20 True"

text \<open>
  The dispatches of the spec's scenario: the first reading is High, the line bounces, then
  stays High until a timer armed for it would fire, and a consumer waits once.
\<close>

definition scenario_events :: "event list" where
  "scenario_events =
     [Dispatch High, Dispatch Low, Dispatch High, Dispatch Low, Dispatch High,
      TimerExpiry, Consume]"

section \<open>The source registry\<close>

type_synonym uint8_t = "8 word"
type_synonym gpio_num_t = int
type_synonym Interrupt_ptr = nat

text \<open>\<^verbatim>\<open>static constexpr uint8_t MAX_INTERRUPTS{32};\<close>\<close>

definition MAX_INTERRUPTS :: uint8_t where
  "MAX_INTERRUPTS = 32"

text \<open>
  A failed \<^verbatim>\<open>assert\<close> aborts the program (assertions are compiled in);
  \<^verbatim>\<open>std::bitset::set\<close> throws \<^verbatim>\<open>std::out_of_range\<close> for a position beyond its size;
  a call through a null or dangling \<^verbatim>\<open>Interrupt *\<close> crashes.
\<close>

datatype error = AssertionFailed | OutOfRange | NullDereference

text \<open>
  The file-level statics: the two \<^verbatim>\<open>std::unordered_map\<close>s as association lists
  with distinct keys, \<^verbatim>\<open>std::bitset<MAX_INTERRUPTS> used_ids\<close> as a 32-bit word,
  whether \<^verbatim>\<open>global_vars_mutex\<close> has been created, and the handle of the daemon task.
  \<^verbatim>\<open>Interrupt *\<close> is an address.  \<open>daemon_tasks_created\<close> counts the tasks the
  platform has created for \<^verbatim>\<open>DaemonTask\<close>; a new handle is the next number.
\<close>

record Globals =
  gpio_to_id_map :: "(gpio_num_t \<times> uint8_t) list"
  id_to_interrupt_map :: "(uint8_t \<times> Interrupt_ptr) list"
  used_ids :: "32 word"
  global_vars_mutex :: bool
  interrupt_daemon_task_handle :: "nat option"
  daemon_tasks_created :: nat

definition Globals_init :: Globals where
  "Globals_init =
     \<lparr>gpio_to_id_map = [], id_to_interrupt_map = [], used_ids = 0,
      global_vars_mutex = False, interrupt_daemon_task_handle = None,
      daemon_tasks_created = 0\<rparr>"

text \<open>\<^verbatim>\<open>std::bitset<32>\<close>: \<^verbatim>\<open>set(pos)\<close>, \<^verbatim>\<open>operator[]\<close>, \<^verbatim>\<open>none()\<close>, \<^verbatim>\<open>all()\<close>.\<close>

definition bitset_set :: "32 word \<Rightarrow> uint8_t \<Rightarrow> error + 32 word" where
  "bitset_set b pos =
     (if unat pos < 32 then Inr (b OR push_bit (unat pos) 1) else Inl OutOfRange)"

definition bitset_test :: "32 word \<Rightarrow> uint8_t \<Rightarrow> bool" where
  "bitset_test b pos = (b AND push_bit (unat pos) 1 \<noteq> 0)"

definition bitset_none :: "32 word \<Rightarrow> bool" where
  "bitset_none b = (b = 0)"

definition bitset_all :: "32 word \<Rightarrow> bool" where
  "bitset_all b = (b = 4294967295)"

text \<open>
  \<^verbatim>\<open>FindFreeId\<close>.  Its first loop,
  \<^verbatim>\<open>for (const auto &kvPair : gpio_to_id_map) used_ids.set(kvPair.second);\<close>
\<close>

fun FindFreeId_mark :: "(gpio_num_t \<times> uint8_t) list \<Rightarrow> 32 word \<Rightarrow> error + 32 word" where
  "FindFreeId_mark [] b = Inr b"
| "FindFreeId_mark (kvPair # rest) b =
     (case bitset_set b (snd kvPair) of
        Inl e \<Rightarrow> Inl e
      | Inr b' \<Rightarrow> FindFreeId_mark rest b')"

text \<open>
  Its second loop,
  \<^verbatim>\<open>for (uint8_t i{0}; i < MAX_INTERRUPTS; ++i) if (!used_ids[i]) return i;\<close>
  followed by \<^verbatim>\<open>return MAX_INTERRUPTS;\<close>
\<close>

function FindFreeId_search :: "32 word \<Rightarrow> uint8_t \<Rightarrow> uint8_t" where
  "FindFreeId_search b i =
     (if i < MAX_INTERRUPTS
      then (if \<not> bitset_test b i then i else FindFreeId_search b (i + 1))
      else MAX_INTERRUPTS)"
  by pat_completeness auto
termination
proof (relation "measure (\<lambda>(b, i). 32 - unat i)")
  show "wf (measure (\<lambda>(b :: 32 word, i :: uint8_t). 32 - unat i))"
    by simp
next
  fix b :: "32 word" and i :: uint8_t
  assume "i < MAX_INTERRUPTS"
  then have lt: "unat i < 32"
    by (simp add: MAX_INTERRUPTS_def word_less_nat_alt)
  from \<open>i < MAX_INTERRUPTS\<close> have "unat (i + 1) = unat i + 1"
    by unat_arith
  with lt show "((b, i + 1), (b, i)) \<in> measure (\<lambda>(b, i). 32 - unat i)"
    by simp
qed

declare FindFreeId_search.simps [simp del]

definition FindFreeId :: "Globals \<Rightarrow> error + (uint8_t \<times> Globals)" where
  "FindFreeId g =
     (case FindFreeId_mark (gpio_to_id_map g) (used_ids g) of
        Inl e \<Rightarrow> Inl e
      | Inr b \<Rightarrow> Inr (FindFreeId_search b 0, g\<lparr>used_ids := b\<rparr>))"

text \<open>
  \<^verbatim>\<open>CreateGlobalVarsMutexIfNotCreated\<close>; \<open>created\<close> is the platform's answer to
  \<^verbatim>\<open>xSemaphoreCreateMutex()\<close>, asserted by the code.
\<close>

definition CreateGlobalVarsMutexIfNotCreated :: "bool \<Rightarrow> Globals \<Rightarrow> error + Globals" where
  "CreateGlobalVarsMutexIfNotCreated created g =
     (if \<not> global_vars_mutex g
      then (if created then Inr (g\<lparr>global_vars_mutex := True\<rparr>) else Inl AssertionFailed)
      else Inr g)"

text \<open>
  \<^verbatim>\<open>AssignIdStoreInMapsAndCreateDaemonTask\<close>, called by the constructor for the
  object at address \<open>this\<close> on line \<open>gpio\<close>.  \<open>ret\<close> is the platform's answer to
  \<^verbatim>\<open>xTaskCreatePinnedToCore\<close>, asserted by the code.  In order: the mutex, the
  daemon task when \<^verbatim>\<open>used_ids.none()\<close>, \<^verbatim>\<open>assert(!used_ids.all())\<close>,
  \<^verbatim>\<open>FindFreeId()\<close>, and the two stores \<^verbatim>\<open>gpio_to_id_map[GpioNum()] = id\<close>,
  \<^verbatim>\<open>id_to_interrupt_map[id] = this\<close>.
\<close>

definition AssignIdStoreInMapsAndCreateDaemonTask ::
  "bool \<Rightarrow> bool \<Rightarrow> gpio_num_t \<Rightarrow> Interrupt_ptr \<Rightarrow> Globals \<Rightarrow> error + Globals" where
  "AssignIdStoreInMapsAndCreateDaemonTask created ret gpio this g =
     (case CreateGlobalVarsMutexIfNotCreated created g of
        Inl e \<Rightarrow> Inl e
      | Inr g1 \<Rightarrow>
          (case (if bitset_none (used_ids g1)
                 then (if ret
                       then Inr (g1\<lparr>interrupt_daemon_task_handle :=
                                       Some (daemon_tasks_created g1),
                                     daemon_tasks_created := Suc (daemon_tasks_created g1)\<rparr>)
                       else Inl AssertionFailed)
                 else Inr g1) of
             Inl e \<Rightarrow> Inl e
           | Inr g2 \<Rightarrow>
               if bitset_all (used_ids g2) then Inl AssertionFailed
               else
                 (case FindFreeId g2 of
                    Inl e \<Rightarrow> Inl e
                  | Inr (free_id, g3) \<Rightarrow>
                      Inr (g3\<lparr>gpio_to_id_map :=
                                 AList.update gpio free_id (gpio_to_id_map g3),
                              id_to_interrupt_map :=
                                 AList.update free_id this (id_to_interrupt_map g3)\<rparr>))))"

text \<open>
  \<^verbatim>\<open>FreeIdUnmapAndDeleteDaemonTask\<close>, called by the destructor.  Its body is the
  comment ``Empty maps and reset bit from bitset'', then \<^verbatim>\<open>assert(false);\<close>, then
  \<^verbatim>\<open>if (used_ids.none()) vTaskDelete(interrupt_daemon_task_handle);\<close>.
\<close>

definition FreeIdUnmapAndDeleteDaemonTask :: "Globals \<Rightarrow> error + Globals" where
  "FreeIdUnmapAndDeleteDaemonTask g =
     (if \<not> False then Inl AssertionFailed
      else if bitset_none (used_ids g)
      then Inr (g\<lparr>interrupt_daemon_task_handle := None\<rparr>)
      else Inr g)"

text \<open>
  Constructing sources one after the other on the given lines, the platform granting
  every mutex and task; the object on line \<open>n\<close> lives at address \<open>n\<close>.
\<close>

fun register_all :: "gpio_num_t list \<Rightarrow> Globals \<Rightarrow> error + Globals" where
  "register_all [] g = Inr g"
| "register_all (gpio # rest) g =
     (case AssignIdStoreInMapsAndCreateDaemonTask True True gpio (nat gpio) g of
        Inl e \<Rightarrow> Inl e
      | Inr g' \<Rightarrow> register_all rest g')"

definition lines_0_to_31 :: "gpio_num_t list" where
  "lines_0_to_31 =
     [0, 1, 2, 3, 4, 5, 6, 7, 8, 9, 10, 11, 12, 13, 14, 15,
      16, 17, 18, 19, 20, 21, 22, 23, 24, 25, 26, 27, 28, 29, 30, 31]"

text \<open>
  A slot id counts as taken when its bit is set in \<^verbatim>\<open>used_ids\<close> or a line is mapped
  to it in \<^verbatim>\<open>gpio_to_id_map\<close>: the ids that \<^verbatim>\<open>FindFreeId\<close> passes over.
\<close>

definition taken :: "Globals \<Rightarrow> nat \<Rightarrow> bool" where
  "taken g n \<longleftrightarrow> bit (used_ids g) n \<or> n \<in> unat ` snd ` set (gpio_to_id_map g)"

section \<open>Interrupt context and the dispatcher task\<close>

text \<open>
  The program around the sources: the registry statics, the objects by address, the
  notification value of each task (by handle) and the static \<^verbatim>\<open>previous_state\<close> of
  \<^verbatim>\<open>Debouncer\<close>.
\<close>

record System =
  globals :: Globals
  objects :: "(Interrupt_ptr \<times> Interrupt) list"
  ulNotifiedValue :: "nat \<Rightarrow> 32 word"
  Debouncer_previous_state :: GpioState

definition System_init :: System where
  "System_init =
     \<lparr>globals = Globals_init, objects = [], ulNotifiedValue = (\<lambda>task. 0),
      Debouncer_previous_state = GpioState_default\<rparr>"

text \<open>
  The constructor of an object placed at address \<open>this\<close>: the object as
  \<open>Interrupt_ctor\<close> builds it and its registration, the platform granting every
  request (\<^verbatim>\<open>configTIMER_QUEUE_LENGTH\<close> 10).
\<close>

definition Interrupt_construct ::
  "Interrupt_ptr \<Rightarrow> gpio_num_t \<Rightarrow> TickType_t \<Rightarrow> TickType_t \<Rightarrow> bool \<Rightarrow> System
     \<Rightarrow> error + System" where
  "Interrupt_construct this line rise_delay fall_delay inverted s =
     (case AssignIdStoreInMapsAndCreateDaemonTask True True line this (globals s) of
        Inl e \<Rightarrow> Inl e
      | Inr g \<Rightarrow>
          Inr (s\<lparr>globals := g,
                 objects :=
                   AList.update this (Interrupt_ctor 10 line rise_delay fall_delay inverted)
                     (objects s)\<rparr>))"

text \<open>
  \<^verbatim>\<open>std::unordered_map::operator[]\<close> as a read: the mapped value, a value-initialised
  entry being inserted for a missing key.
\<close>

definition unordered_map_index ::
  "'v \<Rightarrow> 'k \<Rightarrow> ('k \<times> 'v) list \<Rightarrow> 'v \<times> ('k \<times> 'v) list" where
  "unordered_map_index dflt k m =
     (case map_of m k of
        Some v \<Rightarrow> (v, m)
      | None \<Rightarrow> (dflt, AList.update k dflt m))"

text \<open>
  \<^verbatim>\<open>CreateBitMaskAt\<close> (core.h): \<^verbatim>\<open>1UL << bitPosition\<close> on the 32-bit
  \<^verbatim>\<open>unsigned long\<close> of the target.  A shift by 32 or more is undefined in C++; the
  model gives 0 there.
\<close>

definition CreateBitMaskAt :: "uint8_t \<Rightarrow> 32 word" where
  "CreateBitMaskAt bitPosition = push_bit (unat bitPosition) 1"

text \<open>
  \<^verbatim>\<open>InterruptHandler\<close> for the object at address \<open>arg\<close>.  \<open>raw_gpio_level\<close> is
  what \<^verbatim>\<open>gpio_get_level\<close> reads, \<open>mutex_taken\<close> the answer of
  \<^verbatim>\<open>xSemaphoreTakeFromISR(global_vars_mutex, ...)\<close>: false while a task holds the
  mutex.  The raw state is stored in any case; the notification
  (\<^verbatim>\<open>xTaskNotifyFromISR\<close> with \<^verbatim>\<open>eSetBits\<close>, an OR into the task's value) is sent
  only when the mutex was taken, and the \<^verbatim>\<open>if\<close> has no \<^verbatim>\<open>else\<close>.
\<close>

definition InterruptHandler ::
  "bool \<Rightarrow> int \<Rightarrow> Interrupt_ptr \<Rightarrow> System \<Rightarrow> error + System" where
  "InterruptHandler mutex_taken raw_gpio_level arg s =
     (case map_of (objects s) arg of
        None \<Rightarrow> Inl NullDereference
      | Some interrupt_obj \<Rightarrow>
          (let s1 = s\<lparr>objects :=
                        AList.update arg
                          (interrupt_obj\<lparr>raw_state :=
                             GpioState_ctor raw_gpio_level (inverse_logic interrupt_obj)\<rparr>)
                          (objects s)\<rparr>
           in if mutex_taken
              then (case unordered_map_index 0 (gpio_num interrupt_obj)
                           (gpio_to_id_map (globals s1)) of
                      (slot, m) \<Rightarrow>
                        (case interrupt_daemon_task_handle (globals s1) of
                           None \<Rightarrow> Inl AssertionFailed
                         | Some task \<Rightarrow>
                             Inr (s1\<lparr>globals := (globals s1)\<lparr>gpio_to_id_map := m\<rparr>,
                                     ulNotifiedValue :=
                                       (ulNotifiedValue s1)
                                         (task := ulNotifiedValue s1 task
                                                    OR CreateBitMaskAt slot)\<rparr>)))
              else Inr s1))"

text \<open>
  The body of the \<^verbatim>\<open>for\<close> loop of \<^verbatim>\<open>DaemonTask\<close> for the set bit \<open>i\<close>:
  \<^verbatim>\<open>interrupt_ptr = id_to_interrupt_map[i];\<close> and
  \<^verbatim>\<open>interrupt_ptr->Debouncer(interrupt_ptr->RawState());\<close>.  A missing key makes
  \<^verbatim>\<open>operator[]\<close> return a null pointer, which the call then dereferences.
\<close>

definition DaemonTask_dispatch :: "uint8_t \<Rightarrow> System \<Rightarrow> error + System" where
  "DaemonTask_dispatch i s =
     (case map_of (id_to_interrupt_map (globals s)) i of
        None \<Rightarrow> Inl NullDereference
      | Some interrupt_ptr \<Rightarrow>
          (case map_of (objects s) interrupt_ptr of
             None \<Rightarrow> Inl NullDereference
           | Some obj \<Rightarrow>
               (case Debouncer (raw_state obj) (Debouncer_previous_state s, obj) of
                  (previous, obj') \<Rightarrow>
                    Inr (s\<lparr>objects := AList.update interrupt_ptr obj' (objects s),
                           Debouncer_previous_state := previous\<rparr>))))"

text \<open>
  The loop
  \<^verbatim>\<open>for (auto i{notify_value._Find_first()}; i < notify_value.size(); i = notify_value._Find_next(i))\<close>:
  the set bits of \<^verbatim>\<open>notify_value\<close> in increasing position.
\<close>

function DaemonTask_loop :: "32 word \<Rightarrow> uint8_t \<Rightarrow> System \<Rightarrow> error + System" where
  "DaemonTask_loop notify_value i s =
     (if i < MAX_INTERRUPTS
      then (if bitset_test notify_value i
            then (case DaemonTask_dispatch i s of
                    Inl e \<Rightarrow> Inl e
                  | Inr s' \<Rightarrow> DaemonTask_loop notify_value (i + 1) s')
            else DaemonTask_loop notify_value (i + 1) s)
      else Inr s)"
  by pat_completeness auto
termination
proof (relation "measure (\<lambda>(notify_value, i, s). 32 - unat i)")
  show "wf (measure (\<lambda>(notify_value :: 32 word, i :: uint8_t, s :: System). 32 - unat i))"
    by simp
next
  fix notify_value :: "32 word" and i :: uint8_t and s s' :: System
  assume "i < MAX_INTERRUPTS"
  then have lt: "unat i < 32"
    by (simp add: MAX_INTERRUPTS_def word_less_nat_alt)
  from \<open>i < MAX_INTERRUPTS\<close> have suc: "unat (i + 1) = unat i + 1"
    by unat_arith
  from lt suc
  show "((notify_value, i + 1, s'), (notify_value, i, s))
          \<in> measure (\<lambda>(notify_value, i, s). 32 - unat i)"
    by simp
  from lt suc
  show "((notify_value, i + 1, s), (notify_value, i, s))
          \<in> measure (\<lambda>(notify_value, i, s). 32 - unat i)"
    by simp
qed

declare DaemonTask_loop.simps [simp del]

text \<open>
  One turn of the \<^verbatim>\<open>while (true)\<close> of the daemon task with handle \<open>task\<close>, once it
  is woken: \<^verbatim>\<open>ulTaskNotifyTake(pdTRUE, portMAX_DELAY)\<close> returns the task's
  notification value and clears it, then the loop runs over the value returned.
\<close>

definition DaemonTask_wake :: "nat \<Rightarrow> System \<Rightarrow> error + System" where
  "DaemonTask_wake task s =
     (let notify_value = ulNotifiedValue s task
      in DaemonTask_loop notify_value 0
           (s\<lparr>ulNotifiedValue := (ulNotifiedValue s)(task := 0)\<rparr>))"

text \<open>Sequencing of steps that may fail.\<close>

definition and_then :: "error + 'a \<Rightarrow> ('a \<Rightarrow> error + 'b) \<Rightarrow> error + 'b" where
  "and_then r f = (case r of Inl e \<Rightarrow> Inl e | Inr x \<Rightarrow> f x)"

text \<open>
  What happens in a running program: an edge on the line of the object at an address (with
  the level read and whether the handler gets the mutex), and a wake of a daemon task.
\<close>

datatype sys_event = Edge Interrupt_ptr int bool | Wake nat

fun sys_step :: "sys_event \<Rightarrow> System \<Rightarrow> error + System" where
  "sys_step (Edge arg raw_gpio_level mutex_taken) s =
     InterruptHandler mutex_taken raw_gpio_level arg s"
| "sys_step (Wake task) s = DaemonTask_wake task s"

primrec sys_run :: "sys_event list \<Rightarrow> error + System \<Rightarrow> error + System" where
  "sys_run [] r = r"
| "sys_run (e # es) r = sys_run es (and_then r (sys_step e))"

text \<open>
  A program with two sources: A constructed at address 1 on line 4, then B at address 2
  on line 5, both with delays of 20 ticks.  A gets slot 0 and B slot 1.  At the second
  registration \<^verbatim>\<open>used_ids\<close> is still empty (the bit of slot 0 is set only inside
  \<^verbatim>\<open>FindFreeId\<close>), so a second daemon task is created and
  \<^verbatim>\<open>interrupt_daemon_task_handle\<close> is its handle, 1.
\<close>

definition two_sources :: "error + System" where
  "two_sources =
     and_then (Interrupt_construct 1 4 20 20 False System_init)
       (Interrupt_construct 2 5 20 20 False)"

section \<open>Auxiliary facts\<close>

lemma operator_not_simps:
  "operator_not Low = High" "operator_not High = Low" "operator_not Undefined = High"
  by (simp_all add: operator_not_def GpioState_ctor_def Value_of_bool_def)

lemma operator_not_defined: "operator_not v \<noteq> Undefined"
  by (cases v) (simp_all add: operator_not_simps)

lemma word_mod_le_dividend: "(k::'a::len word) mod n \<le> k"
  by (simp add: word_le_nat_alt unat_mod)

lemma unat_sub_mod2: "unat ((k::32 word) - k mod 2) = unat k - unat k mod 2"
  by (simp add: unat_sub word_mod_le_dividend unat_mod)

lemma unat_inc_below: "(k::'a::len word) < m \<Longrightarrow> unat (k + 1) = unat k + 1"
  by unat_arith

lemma unat_dec_above: "0 < (k::'a::len word) \<Longrightarrow> unat (k - 1) = unat k - 1"
  by unat_arith

lemma Pending_Give:
  "PendingInterrupts this < uxMaxCount (interrupt_counting_semaphore this) \<Longrightarrow>
   xSemaphoreGive (interrupt_counting_semaphore this) =
     (interrupt_counting_semaphore this)\<lparr>uxMessagesWaiting := PendingInterrupts this + 1\<rparr>"
  by (simp add: xSemaphoreGive_def PendingInterrupts_def uxSemaphoreGetCount_def)

lemmas fsm_defs = ProcessInterrupt_def FsmTransition_def FsmReset_def StateChanger_def
  TimerCallback_def timer_expiry_def WaitForSingleInterrupt_def GoHighTime_def GoLowTime_def
  xTimerChangePeriod_def xTimerStop_def xSemaphoreTake_def Let_def

lemmas ctor_defs = Interrupt_ctor_def xSemaphoreCreateCounting_def xTimerCreate_def
  GpioState_default_def GpioState_ctor_def Value_of_bool_def UBASETYPE_MAX_def portMAX_DELAY_def

lemmas registry_defs = Globals_init_def AssignIdStoreInMapsAndCreateDaemonTask_def
  CreateGlobalVarsMutexIfNotCreated_def FindFreeId_def bitset_none_def bitset_all_def
  bitset_set_def bitset_test_def FindFreeId_search.simps MAX_INTERRUPTS_def

lemmas system_defs = System_init_def Interrupt_construct_def InterruptHandler_def
  DaemonTask_dispatch_def DaemonTask_wake_def DaemonTask_loop.simps unordered_map_index_def
  CreateBitMaskAt_def and_then_def Debouncer_def

text \<open>
  What the constructor leaves: nothing pending, the timer dormant, \<^verbatim>\<open>raw_state_\<close>
  Undefined; the value that the converting constructor makes of the enumerator
  \<^verbatim>\<open>GpioState::Undefined\<close> is High.
\<close>

lemma Interrupt_ctor_state:
  "PendingInterrupts (Interrupt_ctor q line rise_delay fall_delay inverted) = 0"
  "\<not> active (change_state_timer (Interrupt_ctor q line rise_delay fall_delay inverted))"
  "raw_state (Interrupt_ctor q line rise_delay fall_delay inverted) = Undefined"
  "fsm_state (Interrupt_ctor q line rise_delay fall_delay inverted) = High"
  by (simp_all add: ctor_defs PendingInterrupts_def uxSemaphoreGetCount_def)

section \<open>The edge state\<close>

text \<open>
  Claim C10.  For every input level and every \<^verbatim>\<open>inverse_logic\<close> flag the converting
  constructor yields Low or High and never Undefined: without the flag, Low for 0 and High
  for every other level; with the flag, High for 0 and Low for every other level.  The two
  results always differ, and the one constructed with \<^verbatim>\<open>inverse_logic = true\<close> is
  \<^verbatim>\<open>operator!\<close> of the one constructed with \<^verbatim>\<open>inverse_logic = false\<close>, where
  \<^verbatim>\<open>operator!\<close> turns Low into High and High into Low.  Undefined comes from the
  default constructor, and \<^verbatim>\<open>operator!\<close> never yields it.
\<close>

theorem GpioState_ctor_Low_or_High:
  "GpioState_ctor state inv_logic \<in> {Low, High}
   \<and> GpioState_ctor state inv_logic \<noteq> Undefined
   \<and> GpioState_ctor state False = (if state = 0 then Low else High)
   \<and> GpioState_ctor state True = (if state = 0 then High else Low)
   \<and> GpioState_ctor state True \<noteq> GpioState_ctor state False
   \<and> GpioState_ctor state True = operator_not (GpioState_ctor state False)
   \<and> operator_not Low = High
   \<and> operator_not High = Low
   \<and> operator_not v \<noteq> Undefined
   \<and> GpioState_default = Undefined"
  by (simp add: GpioState_ctor_def Value_of_bool_def operator_not_simps operator_not_defined
      GpioState_default_def)

section \<open>The consumer-facing counts\<close>

text \<open>
  Claim C8.  For every pending count \<open>k\<close>, \<^verbatim>\<open>RedundantInterrupts()\<close> is
  \<open>k - (k mod 2)\<close>, computed without wrap-around; the result is even, not negative and
  at most \<open>k\<close>.
\<close>

theorem RedundantInterrupts_law:
  "RedundantInterrupts this = PendingInterrupts this - PendingInterrupts this mod 2
   \<and> unat (RedundantInterrupts this)
       = unat (PendingInterrupts this) - unat (PendingInterrupts this) mod 2
   \<and> even (unat (RedundantInterrupts this))
   \<and> 0 \<le> uint (RedundantInterrupts this)
   \<and> RedundantInterrupts this \<le> PendingInterrupts this"
  by (simp add: RedundantInterrupts_def Let_def unat_sub_mod2 word_le_nat_alt)

section \<open>The debounce state machine, one call at a time\<close>

text \<open>
  The branch of \<^verbatim>\<open>ProcessInterrupt\<close> for \<^verbatim>\<open>fsm_state\<close> Undefined, taken by
  itself: \<^verbatim>\<open>fsm_state\<close> becomes \<^verbatim>\<open>operator!\<close> of the new state, the pending count
  rises by one (below the maximum count), the timer is not touched.
\<close>

lemma ProcessInterrupt_Undefined_branch:
  assumes "fsm_state this = Undefined"
    and "PendingInterrupts this < uxMaxCount (interrupt_counting_semaphore this)"
  shows "ProcessInterrupt new_state this =
           this\<lparr>fsm_state := operator_not new_state,
                interrupt_counting_semaphore :=
                  (interrupt_counting_semaphore this)
                    \<lparr>uxMessagesWaiting := PendingInterrupts this + 1\<rparr>\<rparr>"
  using assms
  by (simp add: ProcessInterrupt_def PendingInterrupts_def xSemaphoreGive_def
      uxSemaphoreGetCount_def)

text \<open>No call of \<^verbatim>\<open>ProcessInterrupt\<close> leaves \<^verbatim>\<open>fsm_state\<close> Undefined behind a defined one.\<close>

lemma ProcessInterrupt_fsm_defined:
  "fsm_state this \<noteq> Undefined \<Longrightarrow> fsm_state (ProcessInterrupt new_state this) \<noteq> Undefined"
  by (auto simp add: fsm_defs operator_not_defined)


text \<open>
  Claim C3.  For a source whose \<^verbatim>\<open>fsm_state\<close> is Low or High and a new raw state
  different from it, the delay is \<^verbatim>\<open>low_to_high_time_ticks_\<close> when the new state is
  High and \<^verbatim>\<open>high_to_low_time_ticks_\<close> otherwise.  A non-zero delay arms (or re-arms)
  the timer with that period and changes nothing else.  A zero delay leaves the timer as
  it is, flips \<^verbatim>\<open>fsm_state\<close> and raises the pending count by one at once (the semaphore
  being below its maximum count).
\<close>

theorem ProcessInterrupt_transition:
  assumes "fsm_state this \<in> {Low, High}" and "new_state \<noteq> fsm_state this"
  shows "let wait_time = (if new_state = High then low_to_high_time_ticks this
                          else high_to_low_time_ticks this)
         in (wait_time \<noteq> 0 \<longrightarrow>
               ProcessInterrupt new_state this =
                 this\<lparr>change_state_timer := \<lparr>active = True, period = wait_time\<rparr>\<rparr>)
          \<and> (wait_time = 0
               \<and> PendingInterrupts this < uxMaxCount (interrupt_counting_semaphore this) \<longrightarrow>
               ProcessInterrupt new_state this =
                 this\<lparr>fsm_state := operator_not (fsm_state this),
                      interrupt_counting_semaphore :=
                        (interrupt_counting_semaphore this)
                          \<lparr>uxMessagesWaiting := PendingInterrupts this + 1\<rparr>\<rparr>
               \<and> change_state_timer (ProcessInterrupt new_state this)
                   = change_state_timer this
               \<and> unat (PendingInterrupts (ProcessInterrupt new_state this))
                   = unat (PendingInterrupts this) + 1
               \<and> (new_state \<in> {Low, High} \<longrightarrow>
                     fsm_state (ProcessInterrupt new_state this) = new_state))"
proof -
  from assms have ne: "fsm_state this \<noteq> Undefined" by auto
  show ?thesis
    using assms ne
      unat_inc_below [of "PendingInterrupts this"
        "uxMaxCount (interrupt_counting_semaphore this)"]
    by (auto simp add: Let_def ProcessInterrupt_def FsmTransition_def StateChanger_def
        GoHighTime_def GoLowTime_def xTimerChangePeriod_def Pending_Give operator_not_simps
        PendingInterrupts_def uxSemaphoreGetCount_def)
qed

theorem ProcessInterrupt_transition_witness:
  "(let this = source_A\<lparr>fsm_state := Low\<rparr>
    in fsm_state this \<in> {Low, High} \<and> High \<noteq> fsm_state this
       \<and> low_to_high_time_ticks this \<noteq> 0
       \<and> ProcessInterrupt High this
           = this\<lparr>change_state_timer := \<lparr>active = True, period = 20\<rparr>\<rparr>)
   \<and> (let this = source_A\<lparr>fsm_state := High, high_to_low_time_ticks := 0\<rparr>
       in fsm_state this \<in> {Low, High} \<and> Low \<noteq> fsm_state this
          \<and> high_to_low_time_ticks this = 0
          \<and> PendingInterrupts this < uxMaxCount (interrupt_counting_semaphore this)
          \<and> fsm_state (ProcessInterrupt Low this) = Low
          \<and> unat (PendingInterrupts (ProcessInterrupt Low this)) = 1
          \<and> change_state_timer (ProcessInterrupt Low this) = change_state_timer this)"
proof -
  have a: "fsm_state (source_A\<lparr>fsm_state := Low\<rparr>) \<in> {Low, High}"
    and b: "High \<noteq> fsm_state (source_A\<lparr>fsm_state := Low\<rparr>)"
    and c: "fsm_state (source_A\<lparr>fsm_state := High, high_to_low_time_ticks := 0\<rparr>)
              \<in> {Low, High}"
    and d: "Low \<noteq> fsm_state (source_A\<lparr>fsm_state := High, high_to_low_time_ticks := 0\<rparr>)"
    by simp_all
  have z: "unat (PendingInterrupts
                   (source_A\<lparr>fsm_state := High, high_to_low_time_ticks := 0\<rparr>)) = 0"
    by (simp add: source_A_def ctor_defs PendingInterrupts_def uxSemaphoreGetCount_def)
  from ProcessInterrupt_transition [OF a b] ProcessInterrupt_transition [OF c d] z
  show ?thesis
    by (simp add: Let_def source_A_def ctor_defs PendingInterrupts_def
        uxSemaphoreGetCount_def operator_not_simps)
qed

text \<open>
  Claim C4.  For a source whose \<^verbatim>\<open>fsm_state\<close> is Low or High, a new raw state equal
  to it stops the timer and changes no other member: \<^verbatim>\<open>fsm_state\<close> and the pending
  count stay as they are and no event is published.
\<close>

theorem ProcessInterrupt_bounce_back:
  assumes "fsm_state this \<in> {Low, High}" and "new_state = fsm_state this"
  shows "ProcessInterrupt new_state this =
           this\<lparr>change_state_timer := (change_state_timer this)\<lparr>active := False\<rparr>\<rparr>
       \<and> \<not> active (change_state_timer (ProcessInterrupt new_state this))
       \<and> fsm_state (ProcessInterrupt new_state this) = fsm_state this
       \<and> PendingInterrupts (ProcessInterrupt new_state this) = PendingInterrupts this"
  using assms
  by (auto simp add: ProcessInterrupt_def FsmReset_def xTimerStop_def PendingInterrupts_def)

theorem ProcessInterrupt_bounce_back_witness:
  "(let this = source_A\<lparr>fsm_state := Low,
                         change_state_timer := \<lparr>active = True, period = 20\<rparr>\<rparr>
    in fsm_state this \<in> {Low, High}
       \<and> ProcessInterrupt Low this
           = this\<lparr>change_state_timer := \<lparr>active = False, period = 20\<rparr>\<rparr>
       \<and> fsm_state (ProcessInterrupt Low this) = Low
       \<and> PendingInterrupts (ProcessInterrupt Low this) = 0)"
proof -
  have a: "fsm_state (source_A\<lparr>fsm_state := Low,
             change_state_timer := \<lparr>active = True, period = 20\<rparr>\<rparr>) \<in> {Low, High}"
    and b: "Low = fsm_state (source_A\<lparr>fsm_state := Low,
             change_state_timer := \<lparr>active = True, period = 20\<rparr>\<rparr>)"
    by simp_all
  have z: "PendingInterrupts (source_A\<lparr>fsm_state := Low,
             change_state_timer := \<lparr>active = True, period = 20\<rparr>\<rparr>) = 0"
    by (simp add: source_A_def ctor_defs PendingInterrupts_def uxSemaphoreGetCount_def)
  from ProcessInterrupt_bounce_back [OF a b] z show ?thesis
    by (simp add: Let_def PendingInterrupts_def uxSemaphoreGetCount_def)
qed

section \<open>Runs of one source\<close>

lemma step_fsm_unpublished:
  "\<not> publishes e st \<Longrightarrow> fsm_state (snd (step e st)) = fsm_state (snd st)"
  by (cases e; cases st) (auto simp add: Debouncer_def fsm_defs split: prod.splits)

lemma step_fsm_published:
  "publishes e st \<Longrightarrow> fsm_state (snd st) \<noteq> Undefined \<Longrightarrow>
   fsm_state (snd (step e st)) = operator_not (fsm_state (snd st))"
  by (cases e; cases st) (auto simp add: Debouncer_def fsm_defs split: if_splits)

lemma step_fsm_defined:
  "fsm_state (snd st) \<noteq> Undefined \<Longrightarrow> fsm_state (snd (step e st)) \<noteq> Undefined"
  by (cases "publishes e st")
    (simp_all add: step_fsm_unpublished step_fsm_published operator_not_defined)

lemma step_count_published:
  "publishes e st \<Longrightarrow>
   PendingInterrupts (snd st) < uxMaxCount (interrupt_counting_semaphore (snd st)) \<Longrightarrow>
   unat (PendingInterrupts (snd (step e st))) = unat (PendingInterrupts (snd st)) + 1"
  using unat_inc_below [of "PendingInterrupts (snd st)"
      "uxMaxCount (interrupt_counting_semaphore (snd st))"]
  by (cases e; cases st)
    (auto simp add: Debouncer_def fsm_defs xSemaphoreGive_def PendingInterrupts_def
      uxSemaphoreGetCount_def split: if_splits)

lemma step_count_unpublished:
  "\<not> publishes e st \<Longrightarrow> e \<noteq> Consume \<Longrightarrow>
   PendingInterrupts (snd (step e st)) = PendingInterrupts (snd st)"
  by (cases e; cases st)
    (auto simp add: Debouncer_def fsm_defs PendingInterrupts_def split: if_splits)

lemma step_count_consume:
  "unat (PendingInterrupts (snd (step Consume st)))
     + (if fst (WaitForSingleInterrupt (snd st)) then 1 else 0)
   = unat (PendingInterrupts (snd st))"
  using unat_dec_above [of "PendingInterrupts (snd st)"]
  by (auto simp add: fsm_defs PendingInterrupts_def uxSemaphoreGetCount_def unat_gt_0
      split: prod.splits)

text \<open>
  Below the maximum count, the publishing steps are exactly the steps that raise the
  pending count, and they raise it by one.
\<close>

lemma publishes_iff_count_rises:
  assumes "PendingInterrupts (snd st) < uxMaxCount (interrupt_counting_semaphore (snd st))"
  shows "publishes e st \<longleftrightarrow>
         unat (PendingInterrupts (snd (step e st))) = unat (PendingInterrupts (snd st)) + 1"
proof (cases "publishes e st")
  case True
  with step_count_published [OF True assms] show ?thesis by simp
next
  case False
  show ?thesis
  proof (cases "e = Consume")
    case True
    with False step_count_consume [of st] show ?thesis by (simp split: if_splits)
  next
    case ne: False
    with False step_count_unpublished [OF False ne] show ?thesis by simp
  qed
qed

text \<open>
  Along a run in which no give meets a full semaphore, the pending count is what it was
  plus the events published minus the events consumed.
\<close>

lemma run_count:
  "never_full es st \<Longrightarrow>
   unat (PendingInterrupts (snd (run es st))) + consumed es st =
     unat (PendingInterrupts (snd st)) + length (settled_states es st)"
proof (induction es arbitrary: st)
  case Nil
  then show ?case by simp
next
  case (Cons e es)
  from Cons.prems have nf: "never_full es (step e st)" by simp
  note IH = Cons.IH [OF nf]
  show ?case
  proof (cases "publishes e st")
    case True
    with Cons.prems
    have "PendingInterrupts (snd st) < uxMaxCount (interrupt_counting_semaphore (snd st))"
      by simp
    from step_count_published [OF True this] True IH show ?thesis
      by (cases e) simp_all
  next
    case False
    show ?thesis
    proof (cases "e = Consume")
      case True
      with IH step_count_consume [of st] show ?thesis by (simp split: if_splits)
    next
      case ne: False
      from step_count_unpublished [OF False ne] False ne IH show ?thesis by simp
    qed
  qed
qed

text \<open>
  From a source whose \<^verbatim>\<open>fsm_state\<close> is Low or High, the published states alternate,
  beginning with the negation of the state the run started in, whatever the readings.
\<close>

lemma alternates_settled:
  "fsm_state (snd st) \<noteq> Undefined \<Longrightarrow> alternates (fsm_state (snd st)) (settled_states es st)"
proof (induction es arbitrary: st)
  case Nil
  then show ?case by simp
next
  case (Cons e es)
  from Cons.prems have d: "fsm_state (snd (step e st)) \<noteq> Undefined"
    by (rule step_fsm_defined)
  from Cons.IH [OF d] Cons.prems show ?case
    using step_fsm_published [of e st] step_fsm_unpublished [of e st]
    by (auto simp add: LastState_def)
qed

lemma alternates_nth:
  "alternates v xs \<Longrightarrow> Suc i < length xs \<Longrightarrow> xs ! Suc i = operator_not (xs ! i)"
proof (induction xs arbitrary: v i)
  case Nil
  then show ?case by simp
next
  case (Cons x xs)
  then show ?case by (cases i; cases xs) auto
qed

lemma alternates_set: "alternates v xs \<Longrightarrow> set xs \<subseteq> {Low, High}"
proof (induction xs arbitrary: v)
  case Nil
  then show ?case by simp
next
  case (Cons x xs)
  then show ?case using operator_not_defined [of v] by (cases "operator_not v") auto
qed

lemma run_last:
  "fsm_state (snd (run es st)) = last (fsm_state (snd st) # settled_states es st)"
proof (induction es arbitrary: st)
  case Nil
  then show ?case by simp
next
  case (Cons e es)
  show ?case
    using Cons.IH [of "step e st"] step_fsm_unpublished [of e st]
    by (simp add: LastState_def)
qed

lemma run_fsm_defined:
  "fsm_state (snd st) \<noteq> Undefined \<Longrightarrow> fsm_state (snd (run es st)) \<noteq> Undefined"
  by (induction es arbitrary: st) (simp_all add: step_fsm_defined)

text \<open>
  What holds of every run from a constructed source: \<^verbatim>\<open>fsm_state\<close> is never
  Undefined, the first published state is Low whatever the first reading was, the
  published states alternate from there, and the count equation holds.
\<close>

lemma constructed_runs:
  fixes es :: "event list"
  assumes st: "st = (GpioState_default, Interrupt_ctor q line rise_delay fall_delay inverted)"
  shows "fsm_state (snd (run es st)) \<noteq> Undefined"
    and "alternates High (settled_states es st)"
    and "settled_states es st \<noteq> [] \<Longrightarrow> hd (settled_states es st) = Low"
    and "never_full es st \<Longrightarrow>
         unat (PendingInterrupts (snd (run es st))) + consumed es st
           = length (settled_states es st)"
proof -
  have h: "fsm_state (snd st) = High" and z: "PendingInterrupts (snd st) = 0"
    by (simp_all add: st Interrupt_ctor_state)
  from h show "fsm_state (snd (run es st)) \<noteq> Undefined"
    by (simp add: run_fsm_defined)
  from h alternates_settled [of st es] show alt: "alternates High (settled_states es st)"
    by simp
  from alt show "settled_states es st \<noteq> [] \<Longrightarrow> hd (settled_states es st) = Low"
    by (cases "settled_states es st") (simp_all add: operator_not_simps)
  from z run_count [of es st]
  show "never_full es st \<Longrightarrow>
         unat (PendingInterrupts (snd (run es st))) + consumed es st
           = length (settled_states es st)"
    by simp
qed

text \<open>
  Claim C5.  The claim starts from a fresh source with \<^verbatim>\<open>fsm_state\<close> Undefined and
  lets the published states begin with the negation of the first raw reading.  In the code
  a constructed source starts with \<^verbatim>\<open>fsm_state\<close> High.  With a first reading Low, the
  timer is armed and on its expiry the first published state is Low, the reading itself
  and not its negation High.  In the spec's scenario, whose first reading is High, nothing
  is ever published: the pending count stays 0 where the scenario counts two events, and
  the consumer's wait times out.
\<close>

theorem parity_law_fails_from_constructed_source:
  "fsm_state source_A = High
   \<and> first_reading [Dispatch Low, TimerExpiry] = Some Low
   \<and> settled_states [Dispatch Low, TimerExpiry] (GpioState_default, source_A) = [Low]
   \<and> PendingInterrupts (snd (run [Dispatch Low, TimerExpiry] (GpioState_default, source_A)))
       = 1
   \<and> operator_not Low = High
   \<and> fsm_state scenario_source = High
   \<and> first_reading scenario_events = Some High
   \<and> settled_states scenario_events (GpioState_default, scenario_source) = []
   \<and> consumed scenario_events (GpioState_default, scenario_source) = 0
   \<and> PendingInterrupts (snd (run scenario_events (GpioState_default, scenario_source))) = 0
   \<and> LastState (snd (run scenario_events (GpioState_default, scenario_source))) = High"
  by (simp add: scenario_events_def scenario_source_def source_A_def ctor_defs Debouncer_def
      fsm_defs xSemaphoreGive_def PendingInterrupts_def uxSemaphoreGetCount_def LastState_def
      operator_not_simps)

section \<open>The debounce entry point across sources\<close>

text \<open>
  Claim C1.  The claim asks for a de-duplication state of each source.  In the code the
  remembered state is the one static local of \<^verbatim>\<open>Debouncer\<close>, shared by all
  sources.  When the lines of two constructed sources A and B both fall to Low, A's report
  is processed and B's report, its first ever, is skipped and B is left as it was;
  processing it would have armed B's timer with the fall delay.  This holds for every pair
  of sources.  And after B has reported High in between, a second report Low of A is
  handed to \<^verbatim>\<open>ProcessInterrupt\<close> again, although A's own previous report was Low.
\<close>

theorem Debouncer_previous_state_shared:
  "(\<forall>a. Debouncer Low (GpioState_default, a) = (Low, ProcessInterrupt Low a))
   \<and> (\<forall>a b. Debouncer Low (fst (Debouncer Low (GpioState_default, a)), b) = (Low, b))
   \<and> Debouncer Low (fst (Debouncer Low (GpioState_default, source_A)), source_B)
       = (Low, source_B)
   \<and> ProcessInterrupt Low source_B
       = source_B\<lparr>change_state_timer := \<lparr>active = True, period = 20\<rparr>\<rparr>
   \<and> ProcessInterrupt Low source_B \<noteq> source_B
   \<and> \<not> active (change_state_timer source_B)
   \<and> (\<forall>a b. Debouncer Low (fst (Debouncer High (Low, b)), a)
                 = (Low, ProcessInterrupt Low a))"
  by (simp add: Debouncer_def source_B_def ctor_defs fsm_defs)

section \<open>Registration and unregistration\<close>

lemma bitset_test_bit: "bitset_test b pos = bit b (unat pos)"
  by (simp add: bitset_test_def bit_iff_and_push_bit_not_eq_0)

lemma bitset_set_bit:
  "unat pos < 32 \<Longrightarrow>
   \<exists>b'. bitset_set b pos = Inr b' \<and> (\<forall>n. bit b' n \<longleftrightarrow> bit b n \<or> n = unat pos)"
  by (auto simp add: bitset_set_def bit_simps)

lemma FindFreeId_mark_bits:
  "\<forall>p \<in> set al. unat (snd p) < 32 \<Longrightarrow>
   \<exists>b'. FindFreeId_mark al b = Inr b'
        \<and> (\<forall>n. bit b' n \<longleftrightarrow> bit b n \<or> n \<in> unat ` snd ` set al)"
proof (induction al arbitrary: b)
  case Nil
  then show ?case by simp
next
  case (Cons kvPair rest)
  from Cons.prems have "unat (snd kvPair) < 32" by simp
  from bitset_set_bit [OF this, of b] obtain b1 where
    b1: "bitset_set b (snd kvPair) = Inr b1"
    and bits1: "\<forall>n. bit b1 n \<longleftrightarrow> bit b n \<or> n = unat (snd kvPair)"
    by blast
  from Cons.prems have "\<forall>p \<in> set rest. unat (snd p) < 32" by simp
  from Cons.IH [OF this, of b1] obtain b2 where
    b2: "FindFreeId_mark rest b1 = Inr b2"
    and bits2: "\<forall>n. bit b2 n \<longleftrightarrow> bit b1 n \<or> n \<in> unat ` snd ` set rest"
    by blast
  from b1 b2 have "FindFreeId_mark (kvPair # rest) b = Inr b2" by simp
  moreover from bits1 bits2
  have "\<forall>n. bit b2 n \<longleftrightarrow> bit b n \<or> n \<in> unat ` snd ` set (kvPair # rest)"
    by auto
  ultimately show ?case by blast
qed

lemma FindFreeId_search_lowest:
  "unat i \<le> 32 \<Longrightarrow>
   unat i \<le> unat (FindFreeId_search b i)
   \<and> unat (FindFreeId_search b i) \<le> 32
   \<and> (unat (FindFreeId_search b i) < 32 \<longrightarrow> \<not> bit b (unat (FindFreeId_search b i)))
   \<and> (\<forall>n. unat i \<le> n \<and> n < unat (FindFreeId_search b i) \<longrightarrow> bit b n)"
proof (induction b i rule: FindFreeId_search.induct)
  case (1 b i)
  show ?case
  proof (cases "i < MAX_INTERRUPTS")
    case False
    with "1.prems" have "unat i = 32"
      by (simp add: MAX_INTERRUPTS_def word_less_nat_alt)
    with False show ?thesis
      by (auto simp add: FindFreeId_search.simps [of b i] MAX_INTERRUPTS_def)
  next
    case True
    then have lt: "unat i < 32"
      by (simp add: MAX_INTERRUPTS_def word_less_nat_alt)
    from True have suc: "unat (i + 1) = unat i + 1"
      by (rule unat_inc_below)
    show ?thesis
    proof (cases "bitset_test b i")
      case False
      with True lt show ?thesis
        by (auto simp add: FindFreeId_search.simps [of b i] bitset_test_bit)
    next
      case used: True
      from lt suc have "unat (i + 1) \<le> 32" by simp
      from "1.IH" [OF True _ this] used
      have IH: "unat (i + 1) \<le> unat (FindFreeId_search b (i + 1))
         \<and> unat (FindFreeId_search b (i + 1)) \<le> 32
         \<and> (unat (FindFreeId_search b (i + 1)) < 32 \<longrightarrow>
               \<not> bit b (unat (FindFreeId_search b (i + 1))))
         \<and> (\<forall>n. unat (i + 1) \<le> n \<and> n < unat (FindFreeId_search b (i + 1)) \<longrightarrow> bit b n)"
        by simp
      have eq: "FindFreeId_search b i = FindFreeId_search b (i + 1)"
        using True used by (simp add: FindFreeId_search.simps [of b i])
      from used have here: "bit b (unat i)" by (simp add: bitset_test_bit)
      have below: "\<forall>n. unat i \<le> n \<and> n < unat (FindFreeId_search b (i + 1)) \<longrightarrow> bit b n"
      proof (intro allI impI)
        fix n
        assume n: "unat i \<le> n \<and> n < unat (FindFreeId_search b (i + 1))"
        show "bit b n"
        proof (cases "n = unat i")
          case True
          with here show ?thesis by simp
        next
          case False
          with n suc have "unat (i + 1) \<le> n" by simp
          with IH n show ?thesis by blast
        qed
      qed
      from IH suc below show ?thesis
        unfolding eq by simp
    qed
  qed
qed


lemma update_values_subset: "snd ` set (AList.update k v al) \<subseteq> insert v (snd ` set al)"
  by (induction al) auto

lemma update_entry: "(k, v) \<in> set (AList.update k v al)"
  by (induction al) auto

text \<open>
  What a registration does in general, when every mapped id is below 32 and the capacity
  assertion passes: it returns, the new line is mapped to the lowest id that is not taken,
  and that id is below 32 exactly when some id below 32 is not taken.  When all 32 are
  taken and the assertion still passes, the id is \<^verbatim>\<open>MAX_INTERRUPTS\<close>.
\<close>

lemma registration_lowest_free:
  assumes ids: "\<forall>p \<in> set (gpio_to_id_map g). unat (snd p) < 32"
    and room: "\<not> bitset_all (used_ids g)"
  shows "\<exists>free_id g'.
      AssignIdStoreInMapsAndCreateDaemonTask True True gpio this g = Inr g'
      \<and> map_of (gpio_to_id_map g') gpio = Some free_id
      \<and> map_of (id_to_interrupt_map g') free_id = Some this
      \<and> unat free_id \<le> 32
      \<and> (\<forall>n < unat free_id. taken g n)
      \<and> (unat free_id < 32 \<longrightarrow> \<not> taken g (unat free_id))
      \<and> (\<forall>n. taken g' n \<longleftrightarrow> taken g n \<or> n = unat free_id)
      \<and> ((\<exists>n < 32. \<not> taken g n) \<longrightarrow> free_id < MAX_INTERRUPTS)
      \<and> ((\<forall>n < 32. taken g n) \<longrightarrow> free_id = MAX_INTERRUPTS)"
proof -
  from FindFreeId_mark_bits [OF ids, of "used_ids g"] obtain b' where
    mark: "FindFreeId_mark (gpio_to_id_map g) (used_ids g) = Inr b'"
    and bits: "\<forall>n. bit b' n \<longleftrightarrow> taken g n"
    by (auto simp add: taken_def)
  define free_id where "free_id = FindFreeId_search b' 0"
  from FindFreeId_search_lowest [of 0 b'] bits
  have low: "unat free_id \<le> 32" "unat free_id < 32 \<longrightarrow> \<not> taken g (unat free_id)"
    "\<forall>n < unat free_id. taken g n"
    by (simp_all add: free_id_def)
  define g' where "g' = AssignIdStoreInMapsAndCreateDaemonTask True True gpio this g"
  have step: "\<exists>h. g' = Inr (h\<lparr>used_ids := b',
        gpio_to_id_map := AList.update gpio free_id (gpio_to_id_map g),
        id_to_interrupt_map := AList.update free_id this (id_to_interrupt_map g)\<rparr>)
      \<and> gpio_to_id_map h = gpio_to_id_map g"
    using room mark
    by (auto simp add: g'_def AssignIdStoreInMapsAndCreateDaemonTask_def
        CreateGlobalVarsMutexIfNotCreated_def FindFreeId_def free_id_def bitset_none_def
        split: sum.splits)
  then obtain h where h: "g' = Inr (h\<lparr>used_ids := b',
        gpio_to_id_map := AList.update gpio free_id (gpio_to_id_map g),
        id_to_interrupt_map := AList.update free_id this (id_to_interrupt_map g)\<rparr>)"
    by blast
  let ?g = "h\<lparr>used_ids := b',
        gpio_to_id_map := AList.update gpio free_id (gpio_to_id_map g),
        id_to_interrupt_map := AList.update free_id this (id_to_interrupt_map g)\<rparr>"
  have m1: "map_of (gpio_to_id_map ?g) gpio = Some free_id"
    by (simp add: update_conv')
  have m2: "map_of (id_to_interrupt_map ?g) free_id = Some this"
    by (simp add: update_conv')
  have t: "\<forall>n. taken ?g n \<longleftrightarrow> taken g n \<or> n = unat free_id"
  proof
    fix n
    show "taken ?g n \<longleftrightarrow> taken g n \<or> n = unat free_id"
    proof
      assume "taken ?g n"
      then consider "bit b' n"
        | "n \<in> unat ` snd ` set (AList.update gpio free_id (gpio_to_id_map g))"
        by (auto simp add: taken_def)
      then show "taken g n \<or> n = unat free_id"
      proof cases
        case 1
        with bits show ?thesis by simp
      next
        case 2
        have "unat ` snd ` set (AList.update gpio free_id (gpio_to_id_map g))
            \<subseteq> insert (unat free_id) (unat ` snd ` set (gpio_to_id_map g))"
          using update_values_subset [of gpio free_id "gpio_to_id_map g"]
          by (metis image_insert image_mono)
        with 2 have "n = unat free_id \<or> n \<in> unat ` snd ` set (gpio_to_id_map g)"
          by blast
        then show ?thesis by (auto simp add: taken_def)
      qed
    next
      assume "taken g n \<or> n = unat free_id"
      then show "taken ?g n"
      proof
        assume "taken g n"
        with bits show ?thesis by (simp add: taken_def)
      next
        assume "n = unat free_id"
        with update_entry [of gpio free_id "gpio_to_id_map g"] show ?thesis
          by (force simp add: taken_def)
      qed
    qed
  qed
  have some: "(\<exists>n < 32. \<not> taken g n) \<longrightarrow> free_id < MAX_INTERRUPTS"
  proof
    assume "\<exists>n < 32. \<not> taken g n"
    then obtain n where "n < 32" and "\<not> taken g n" by blast
    with low(3) have "unat free_id < 32"
      by (metis not_less less_le_trans)
    then show "free_id < MAX_INTERRUPTS"
      by (simp add: MAX_INTERRUPTS_def word_less_nat_alt)
  qed
  have none: "(\<forall>n < 32. taken g n) \<longrightarrow> free_id = MAX_INTERRUPTS"
  proof
    assume "\<forall>n < 32. taken g n"
    with low(1,2) have "unat free_id = 32"
      by (metis le_neq_implies_less)
    then show "free_id = MAX_INTERRUPTS"
      by (simp add: MAX_INTERRUPTS_def word_eq_iff_unsigned [where ?'a = nat])
  qed
  from h m1 m2 low t some none show ?thesis
    unfolding g'_def by blast
qed


text \<open>
  Claim C6.  Thirty-two sources registered one after the other receive the slot ids 0 to
  31 in order.  The capacity assertion reads \<^verbatim>\<open>used_ids\<close> before \<^verbatim>\<open>FindFreeId\<close>
  has marked the id given out last, so the thirty-third registration, made while all 32
  slots are taken, passes it: the registration returns, with \<^verbatim>\<open>MAX_INTERRUPTS\<close> (32)
  stored as the slot id of the new line.  The assertion fails one registration later.
\<close>

theorem thirty_third_registration_not_refused:
  "case register_all lines_0_to_31 Globals_init of
     Inl e \<Rightarrow> False
   | Inr g \<Rightarrow>
       map snd (gpio_to_id_map g) =
         [0, 1, 2, 3, 4, 5, 6, 7, 8, 9, 10, 11, 12, 13, 14, 15,
          16, 17, 18, 19, 20, 21, 22, 23, 24, 25, 26, 27, 28, 29, 30, 31]
       \<and> map fst (id_to_interrupt_map g) = map snd (gpio_to_id_map g)
       \<and> (case AssignIdStoreInMapsAndCreateDaemonTask True True 32 32 g of
             Inl e \<Rightarrow> False
           | Inr g' \<Rightarrow>
               map_of (gpio_to_id_map g') 32 = Some MAX_INTERRUPTS
               \<and> map_of (id_to_interrupt_map g') MAX_INTERRUPTS = Some 32
               \<and> AssignIdStoreInMapsAndCreateDaemonTask True True 33 33 g'
                   = Inl AssertionFailed)"
  by (simp add: lines_0_to_31_def registry_defs)

text \<open>
  Claim C7.  The claim asks that unregistering a live source removes both mappings, frees
  the slot and succeeds.  In the code \<^verbatim>\<open>FreeIdUnmapAndDeleteDaemonTask\<close> stops at
  \<^verbatim>\<open>assert(false)\<close> in every registry state: no mapping is removed and no slot is
  freed.
\<close>

theorem FreeIdUnmapAndDeleteDaemonTask_aborts:
  "FreeIdUnmapAndDeleteDaemonTask g = Inl AssertionFailed"
  by (simp add: FreeIdUnmapAndDeleteDaemonTask_def)

section \<open>From the interrupt to the state machine\<close>

text \<open>
  Claim C9.  With two constructed sources A (slot 0) and B (slot 1), both lines fall to
  Low before the daemon task runs.  The two notifications accumulate in the task's
  notification value (bits 0 and 1) and the wake reads and clears it, as the claim says.
  But of the two raw levels present at that dispatch only A's reaches
  \<^verbatim>\<open>ProcessInterrupt\<close>: B's is skipped by \<^verbatim>\<open>Debouncer\<close> because of the shared
  \<^verbatim>\<open>previous_state\<close>, B is left as it was and its timer is never armed.  And an
  interrupt that finds the mutex held stores the raw level and sets no bit at all: no
  task is notified, and a later wake does not reach the source.
\<close>

theorem notification_not_observed_by_state_machine:
  "(case sys_run [Edge 1 0 True, Edge 2 0 True] two_sources of
      Inl e \<Rightarrow> False
    | Inr s \<Rightarrow>
        interrupt_daemon_task_handle (globals s) = Some 1
        \<and> map_of (gpio_to_id_map (globals s)) 4 = Some 0
        \<and> map_of (gpio_to_id_map (globals s)) 5 = Some 1
        \<and> ulNotifiedValue s 1 = 3
        \<and> map_of (objects s) 1 = Some (source_A\<lparr>raw_state := Low\<rparr>)
        \<and> map_of (objects s) 2 = Some (source_B\<lparr>raw_state := Low\<rparr>))
   \<and> (case sys_run [Edge 1 0 True, Edge 2 0 True, Wake 1] two_sources of
        Inl e \<Rightarrow> False
      | Inr s \<Rightarrow>
          ulNotifiedValue s 1 = 0
          \<and> map_of (objects s) 1 = Some (ProcessInterrupt Low (source_A\<lparr>raw_state := Low\<rparr>))
          \<and> map_of (objects s) 2 = Some (source_B\<lparr>raw_state := Low\<rparr>))
   \<and> ProcessInterrupt Low (source_B\<lparr>raw_state := Low\<rparr>)
       = source_B\<lparr>raw_state := Low, change_state_timer := \<lparr>active = True, period = 20\<rparr>\<rparr>
   \<and> ProcessInterrupt Low (source_B\<lparr>raw_state := Low\<rparr>) \<noteq> source_B\<lparr>raw_state := Low\<rparr>
   \<and> (case sys_run [Edge 2 0 False] two_sources of
        Inl e \<Rightarrow> False
      | Inr s \<Rightarrow>
          (\<forall>task. ulNotifiedValue s task = 0)
          \<and> map_of (objects s) 2 = Some (source_B\<lparr>raw_state := Low\<rparr>))
   \<and> (case sys_run [Edge 2 0 False, Wake 1] two_sources of
        Inl e \<Rightarrow> False
      | Inr s \<Rightarrow> map_of (objects s) 2 = Some (source_B\<lparr>raw_state := Low\<rparr>))"
  by (simp add: two_sources_def system_defs registry_defs source_A_def source_B_def ctor_defs
      fsm_defs)

end
